theory Spec2Isabelle
  imports Main "HOL-Library.Word" "HOL-Library.Multiset"
begin

section \<open>Solidity value types\<close>

text \<open>
  The contract \<^verbatim>\<open>PrivacyWalletRecoveryFHE\<close> is compiled with Solidity 0.8.24, so
  arithmetic on \<^verbatim>\<open>uint256\<close> is checked: an overflowing \<^verbatim>\<open>+=\<close> reverts with an
  arithmetic panic. Identifiers and timestamps are 256-bit words, addresses are 160-bit
  words, \<^verbatim>\<open>bytes\<close> is a list of octets. The length of an array is kept as a natural
  number: an EVM array stores its length in one 256-bit slot, so every array the
  contract can hold or receive is shorter than \<open>2 ^ 256\<close> and neither
  \<^verbatim>\<open>length / 2\<close> nor the comparison with a \<^verbatim>\<open>uint32\<close> can overflow.
\<close>

type_synonym uint256 = "256 word"

type_synonym uint32 = "32 word"

type_synonym address = "160 word"

type_synonym bytes = "8 word list"

section \<open>The ciphertext capability (library \<^verbatim>\<open>@fhevm/solidity\<close>)\<close>

text \<open>
  Modelled from the spec: the library \<^verbatim>\<open>FHE.sol\<close> that the contract imports is not
  part of the repository. Its handles are modelled symbolically, as the terms built by
  the three ways the contract obtains a \<^verbatim>\<open>euint32\<close>: the zero handle of an
  uninitialised storage slot, \<^verbatim>\<open>FHE.asEuint32(v)\<close> and \<^verbatim>\<open>FHE.add(a, b)\<close>. The
  contract never inspects a handle, so the protocol logic does not depend on more.
\<close>

datatype euint32 = Uninitialized | FHE_asEuint32 uint32 | FHE_add euint32 euint32

text \<open>
  Modelled from the spec: decryption is the ideal functionality of section 4.3,
  ``homomorphic addition yields, after decryption, the same result as the operation on
  the plaintexts''. The plaintext type is the \<^verbatim>\<open>uint32\<close> that the callback decodes
  (\<^verbatim>\<open>abi.decode(cleartexts, (uint32))\<close>), so plaintext addition is addition of 32-bit
  words.
\<close>

primrec decrypt :: "euint32 \<Rightarrow> uint32" where
  "decrypt Uninitialized = 0"
| "decrypt (FHE_asEuint32 v) = v"
| "decrypt (FHE_add a b) = decrypt a + decrypt b"

text \<open>The contract branches on \<^verbatim>\<open>encryptedApproval.value\<close>.\<close>

datatype ebool = Ebool (ebool_value: bool)

text \<open>\<^verbatim>\<open>FHE.toBytes32\<close> only rewraps a handle.\<close>

definition FHE_toBytes32 :: "euint32 \<Rightarrow> euint32" where
  "FHE_toBytes32 c = c"

section \<open>Contract storage\<close>

record EncryptedGuardian =
  encryptedAddress :: euint32

record RecoveryRequest =
  requestId :: uint256
  encryptedApprovalCount :: euint32
  timestamp :: uint256
  executed :: bool

datatype event = RecoveryRequested uint256 uint256 | RecoveryExecuted uint256

text \<open>
  The storage variables of the contract, the log of emitted events, and the log of the
  calls made to \<^verbatim>\<open>FHE.requestDecryption\<close> (the identifier the oracle returned and the
  handles handed to it). A Solidity mapping is a total function whose unwritten slots
  hold the zero value of the value type.
\<close>

record contract_state =
  requestCounter :: uint256
  userGuardians :: "address \<Rightarrow> EncryptedGuardian list"
  recoveryRequests :: "uint256 \<Rightarrow> RecoveryRequest"
  requestToUser :: "uint256 \<Rightarrow> address"
  events :: "event list"
  decryptionRequests :: "(uint256 \<times> euint32 list) list"

definition zero_request :: RecoveryRequest where
  "zero_request =
     \<lparr>requestId = 0, encryptedApprovalCount = Uninitialized, timestamp = 0, executed = False\<rparr>"

definition no_guardians :: "address \<Rightarrow> EncryptedGuardian list" where
  "no_guardians a = []"

definition no_requests :: "uint256 \<Rightarrow> RecoveryRequest" where
  "no_requests i = zero_request"

definition no_users :: "uint256 \<Rightarrow> address" where
  "no_users i = 0"

text \<open>The state of a freshly deployed contract.\<close>

definition initial_state :: contract_state where
  "initial_state =
     \<lparr>requestCounter = 0, userGuardians = no_guardians, recoveryRequests = no_requests,
      requestToUser = no_users, events = [], decryptionRequests = []\<rparr>"

text \<open>
  A reverted call is \<open>Inl\<close> of its reason and leaves the storage as it was.
  \<open>InvalidRequest\<close> is \<^verbatim>\<open>require(..., "Invalid request")\<close>, \<open>AlreadyExecuted\<close> is
  \<^verbatim>\<open>require(..., "Already executed")\<close>, \<open>ProofInvalid\<close> is a revert inside
  \<^verbatim>\<open>FHE.checkSignatures\<close>, \<open>DecodeFailed\<close> a revert of \<^verbatim>\<open>abi.decode\<close> and
  \<open>ArithmeticPanic\<close> the overflow of a checked addition. The contract has no
  statement that reverts for an unauthorised caller.
\<close>

datatype error = InvalidRequest | AlreadyExecuted | ProofInvalid | DecodeFailed | ArithmeticPanic

section \<open>Built-in operations\<close>

text \<open>
  \<^verbatim>\<open>abi.decode(cleartexts, (uint32))\<close>: reverts when fewer than 32 bytes are given,
  reads the first 32 bytes as a big-endian number and reverts unless it fits 32 bits.
\<close>

definition be_nat :: "bytes \<Rightarrow> nat" where
  "be_nat bs = foldl (\<lambda>acc b. acc * 256 + unat b) 0 bs"

definition abi_decode_uint32 :: "bytes \<Rightarrow> uint32 option" where
  "abi_decode_uint32 cleartexts =
     (if length cleartexts < 32 then None
      else if be_nat (take 32 cleartexts) < 2 ^ 32
           then Some (of_nat (be_nat (take 32 cleartexts)))
           else None)"

text \<open>\<^verbatim>\<open>abi.encode(uint32 v)\<close>, the cleartext payload an oracle delivers for the value \<open>v\<close>.\<close>

definition abi_encode_uint32 :: "uint32 \<Rightarrow> bytes" where
  "abi_encode_uint32 v =
     replicate 28 0 @
     [ucast (drop_bit 24 v), ucast (drop_bit 16 v), ucast (drop_bit 8 v), ucast v]"

text \<open>
  \<^verbatim>\<open>FHE.checkSignatures(requestId, cleartexts, proof)\<close> returns or reverts. Its verdict
  is a parameter of the model, of this type: it may depend on the decryption requests
  issued so far, on the identifier and on the two byte strings.
\<close>

type_synonym signature_check = "(uint256 \<times> euint32 list) list \<Rightarrow> uint256 \<Rightarrow> bytes \<Rightarrow> bytes \<Rightarrow> bool"

text \<open>
  Modelled from the spec: \<^verbatim>\<open>verifyDecryptionProof\<close> of section 4.3 accepts exactly when
  the claimed cleartext is the faithful decryption of the ciphertext associated with the
  decryption request. This is the honest oracle used in the scenarios below.
\<close>

definition honest_check :: signature_check where
  "honest_check issued rid cleartexts prf =
     (case map_of issued rid of
        Some [c] \<Rightarrow> abi_decode_uint32 cleartexts = Some (decrypt c)
      | _ \<Rightarrow> False)"

text \<open>
  A verifier that accepts every callback, to see what the contract's own checks stop.
\<close>

definition accept_all :: signature_check where
  "accept_all issued rid cleartexts prf = True"

section \<open>The contract's functions\<close>

text \<open>The modifier \<^verbatim>\<open>onlyUser(address user) { _; }\<close> runs the body and checks nothing.\<close>

definition onlyUser :: "address \<Rightarrow> 'a \<Rightarrow> 'a" where
  "onlyUser user body = body"

text \<open>The \<^verbatim>\<open>for\<close> loop of \<^verbatim>\<open>setEncryptedGuardians\<close>: one \<^verbatim>\<open>push\<close> for each index.\<close>

function setEncryptedGuardians_loop ::
  "address \<Rightarrow> EncryptedGuardian list \<Rightarrow> nat \<Rightarrow> contract_state \<Rightarrow> contract_state" where
  "setEncryptedGuardians_loop msg_sender guardians i s =
     (if i < length guardians
      then setEncryptedGuardians_loop msg_sender guardians (i + 1)
             (s\<lparr>userGuardians :=
                  (userGuardians s)(msg_sender := userGuardians s msg_sender @ [guardians ! i])\<rparr>)
      else s)"
  by pat_completeness auto

termination
  by (relation "measure (\<lambda>(msg_sender, guardians, i, s). length guardians - i)") auto

declare setEncryptedGuardians_loop.simps [simp del]

definition setEncryptedGuardians ::
  "contract_state \<Rightarrow> address \<Rightarrow> EncryptedGuardian list \<Rightarrow> error + contract_state" where
  "setEncryptedGuardians s msg_sender guardians =
     Inr (setEncryptedGuardians_loop msg_sender guardians 0
            (s\<lparr>userGuardians := (userGuardians s)(msg_sender := [])\<rparr>))"

definition requestWalletRecovery ::
  "contract_state \<Rightarrow> address \<Rightarrow> uint256 \<Rightarrow> error + contract_state" where
  "requestWalletRecovery s msg_sender block_timestamp =
     onlyUser msg_sender
       (if requestCounter s = - 1 then Inl ArithmeticPanic
        else
          let newId = requestCounter s + 1 in
          Inr (s\<lparr>requestCounter := newId,
                 recoveryRequests := (recoveryRequests s)(newId :=
                   \<lparr>requestId = newId, encryptedApprovalCount = FHE_asEuint32 0,
                    timestamp = block_timestamp, executed = False\<rparr>),
                 requestToUser := (requestToUser s)(newId := msg_sender),
                 events := events s @ [RecoveryRequested newId block_timestamp]\<rparr>))"

definition submitEncryptedApproval ::
  "contract_state \<Rightarrow> uint256 \<Rightarrow> ebool \<Rightarrow> error + contract_state" where
  "submitEncryptedApproval s rid encryptedApproval =
     (if 0 < rid \<and> rid \<le> requestCounter s then
        let req = recoveryRequests s rid in
        if executed req then Inl AlreadyExecuted
        else if ebool_value encryptedApproval then
          Inr (s\<lparr>recoveryRequests := (recoveryRequests s)(rid :=
                   req\<lparr>encryptedApprovalCount :=
                         FHE_add (encryptedApprovalCount req) (FHE_asEuint32 1)\<rparr>)\<rparr>)
        else Inr s
      else Inl InvalidRequest)"

text \<open>
  \<open>reqId\<close> is the identifier that \<^verbatim>\<open>FHE.requestDecryption\<close> returns; it is chosen by
  the decryption oracle, not by the contract. \<open>msg_sender\<close> is the caller, which the
  function body never reads.
\<close>

definition requestApprovalDecryption ::
  "contract_state \<Rightarrow> address \<Rightarrow> uint256 \<Rightarrow> uint256 \<Rightarrow> error + contract_state" where
  "requestApprovalDecryption s msg_sender rid reqId =
     onlyUser (requestToUser s rid)
       (let req = recoveryRequests s rid in
        if executed req then Inl AlreadyExecuted
        else
          let ciphertexts = [FHE_toBytes32 (encryptedApprovalCount req)] in
          Inr (s\<lparr>decryptionRequests := decryptionRequests s @ [(reqId, ciphertexts)],
                 requestToUser := (requestToUser s)(reqId := requestToUser s rid)\<rparr>))"

definition decryptApproval ::
  "signature_check \<Rightarrow> contract_state \<Rightarrow> uint256 \<Rightarrow> bytes \<Rightarrow> bytes \<Rightarrow> error + contract_state" where
  "decryptApproval checkSignatures s rid cleartexts prf =
     (let user = requestToUser s rid in
      if user = 0 then Inl InvalidRequest
      else if checkSignatures (decryptionRequests s) rid cleartexts prf then
        (case abi_decode_uint32 cleartexts of
           None \<Rightarrow> Inl DecodeFailed
         | Some approvalCount \<Rightarrow>
             let req = recoveryRequests s rid in
             if executed req then Inl AlreadyExecuted
             else if length (userGuardians s user) div 2 < unat approvalCount then
               Inr (s\<lparr>recoveryRequests := (recoveryRequests s)(rid := req\<lparr>executed := True\<rparr>),
                      events := events s @ [RecoveryExecuted (requestId req)]\<rparr>)
             else Inr s)
      else Inl ProofInvalid)"

text \<open>A \<^verbatim>\<open>view\<close> function: it reads the storage and has no state to return.\<close>

definition getGuardianCount :: "contract_state \<Rightarrow> address \<Rightarrow> nat" where
  "getGuardianCount s user = length (userGuardians s user)"

section \<open>Transactions and runs\<close>

datatype call =
    SetEncryptedGuardians address "EncryptedGuardian list"
  | RequestWalletRecovery address uint256
  | SubmitEncryptedApproval uint256 ebool
  | RequestApprovalDecryption address uint256 uint256
  | DecryptApproval uint256 bytes bytes

fun dispatch :: "signature_check \<Rightarrow> contract_state \<Rightarrow> call \<Rightarrow> error + contract_state" where
  "dispatch chk s (SetEncryptedGuardians a gs) = setEncryptedGuardians s a gs"
| "dispatch chk s (RequestWalletRecovery a t) = requestWalletRecovery s a t"
| "dispatch chk s (SubmitEncryptedApproval rid v) = submitEncryptedApproval s rid v"
| "dispatch chk s (RequestApprovalDecryption a rid d) = requestApprovalDecryption s a rid d"
| "dispatch chk s (DecryptApproval d ct prf) = decryptApproval chk s d ct prf"

text \<open>A transaction that reverts changes nothing.\<close>

definition exec :: "signature_check \<Rightarrow> contract_state \<Rightarrow> call \<Rightarrow> contract_state" where
  "exec chk s c = (case dispatch chk s c of Inl e \<Rightarrow> s | Inr s' \<Rightarrow> s')"

definition run :: "signature_check \<Rightarrow> contract_state \<Rightarrow> call list \<Rightarrow> contract_state" where
  "run chk s cs = foldl (exec chk) s cs"

text \<open>Submitting a list of votes to one request, stopping at the first revert.\<close>

fun submitApprovals :: "contract_state \<Rightarrow> uint256 \<Rightarrow> ebool list \<Rightarrow> error + contract_state" where
  "submitApprovals s rid [] = Inr s"
| "submitApprovals s rid (v # vs) =
     (case submitEncryptedApproval s rid v of
        Inl e \<Rightarrow> Inl e
      | Inr s' \<Rightarrow> submitApprovals s' rid vs)"

text \<open>The handle that a counter holds after the votes have been folded into it.\<close>

fun fold_votes :: "euint32 \<Rightarrow> ebool list \<Rightarrow> euint32" where
  "fold_votes c [] = c"
| "fold_votes c (v # vs) =
     fold_votes (if ebool_value v then FHE_add c (FHE_asEuint32 1) else c) vs"

text \<open>
  What a decryption of the request's counter yields after the votes have been submitted
  (\<open>None\<close> when a submission reverts).
\<close>

definition decrypted_count_after :: "contract_state \<Rightarrow> uint256 \<Rightarrow> ebool list \<Rightarrow> uint32 option" where
  "decrypted_count_after s rid votes =
     (case submitApprovals s rid votes of
        Inl e \<Rightarrow> None
      | Inr s' \<Rightarrow> Some (decrypt (encryptedApprovalCount (recoveryRequests s' rid))))"

text \<open>The identifiers carried by the \<^verbatim>\<open>RecoveryRequested\<close> events of a log, oldest first.\<close>

fun created_ids :: "event list \<Rightarrow> uint256 list" where
  "created_ids [] = []"
| "created_ids (RecoveryRequested i t # es) = i # created_ids es"
| "created_ids (RecoveryExecuted i # es) = created_ids es"

text \<open>Whether a call is a \<^verbatim>\<open>setEncryptedGuardians\<close> sent by the given holder.\<close>

fun configures :: "address \<Rightarrow> call \<Rightarrow> bool" where
  "configures holder (SetEncryptedGuardians a gs) = (a = holder)"
| "configures holder c = False"

section \<open>Scenarios\<close>

definition alice :: address where
  "alice = 0xA11CE"

definition bob :: address where
  "bob = 0xB0B"

definition guardian :: "nat \<Rightarrow> EncryptedGuardian" where
  "guardian n = \<lparr>encryptedAddress = FHE_asEuint32 (of_nat n)\<rparr>"

definition approve :: call where
  "approve = SubmitEncryptedApproval 1 (Ebool True)"

text \<open>Alice has created request 1 and nothing else has happened.\<close>

definition one_request :: contract_state where
  "one_request = exec honest_check initial_state (RequestWalletRecovery alice 1000)"

text \<open>
  Alice registers \<open>n\<close> guardians and creates request 1, \<open>k\<close> approvals are submitted,
  Alice requests the decryption, for which the oracle returns the identifier \<open>d\<close>.
\<close>

definition round_calls :: "nat \<Rightarrow> nat \<Rightarrow> uint256 \<Rightarrow> call list" where
  "round_calls n k d =
     [SetEncryptedGuardians alice (map guardian [0..<n]), RequestWalletRecovery alice 1000]
     @ replicate k approve @ [RequestApprovalDecryption alice 1 d]"

definition round_state :: "nat \<Rightarrow> nat \<Rightarrow> uint256 \<Rightarrow> contract_state" where
  "round_state n k d = run honest_check initial_state (round_calls n k d)"

text \<open>
  The round in which Alice asks twice for the decryption of request 1, with three
  guardians and two approvals: the oracle returns the identifiers 0 and 1, and the
  callback for 1 has arrived with the cleartext 2 and has executed request 1.
\<close>

definition duplicate_round_state :: contract_state where
  "duplicate_round_state =
     run honest_check (round_state 3 2 0)
       [RequestApprovalDecryption alice 1 1, DecryptApproval 1 (abi_encode_uint32 2) []]"

text \<open>
  What can have a non-zero entry in \<^verbatim>\<open>requestToUser\<close>: the identifier of a created
  request, and an identifier that the decryption oracle returned.
\<close>

definition known :: "contract_state \<Rightarrow> uint256 \<Rightarrow> bool" where
  "known s d = ((0 < d \<and> d \<le> requestCounter s) \<or> d \<in> fst ` set (decryptionRequests s))"

section \<open>Auxiliary facts\<close>

subsection \<open>The loop of setEncryptedGuardians, transactions and runs\<close>

lemma setEncryptedGuardians_loop_drop:
  "i \<le> length gs \<Longrightarrow>
   setEncryptedGuardians_loop a gs i s =
     s\<lparr>userGuardians := (userGuardians s)(a := userGuardians s a @ drop i gs)\<rparr>"
proof (induction a gs i s rule: setEncryptedGuardians_loop.induct)
  case (1 a gs i s)
  show ?case
  proof (cases "i < length gs")
    case True
    let ?s = "s\<lparr>userGuardians := (userGuardians s)(a := userGuardians s a @ [gs ! i])\<rparr>"
    have d: "drop i gs = gs ! i # drop (Suc i) gs"
      using True by (simp add: Cons_nth_drop_Suc)
    have "setEncryptedGuardians_loop a gs i s = setEncryptedGuardians_loop a gs (i + 1) ?s"
      using True by (subst setEncryptedGuardians_loop.simps) simp
    also have "\<dots> = ?s\<lparr>userGuardians := (userGuardians ?s)(a := userGuardians ?s a @ drop (i + 1) gs)\<rparr>"
      using True by (intro "1.IH") simp_all
    also have "\<dots> = s\<lparr>userGuardians := (userGuardians s)(a := userGuardians s a @ drop i gs)\<rparr>"
      by (simp add: d)
    finally show ?thesis .
  next
    case False
    with 1 show ?thesis
      by (subst setEncryptedGuardians_loop.simps) simp
  qed
qed

lemma setEncryptedGuardians_eq:
  "setEncryptedGuardians s a gs = Inr (s\<lparr>userGuardians := (userGuardians s)(a := gs)\<rparr>)"
  by (simp add: setEncryptedGuardians_def setEncryptedGuardians_loop_drop)

lemma run_Nil [simp]: "run chk s [] = s"
  by (simp add: run_def)

lemma run_Cons [simp]: "run chk s (c # cs) = run chk (exec chk s c) cs"
  by (simp add: run_def)

lemma run_append [simp]: "run chk s (cs @ ds) = run chk (run chk s cs) ds"
  by (simp add: run_def)

lemma run_snoc: "run chk s (cs @ [c]) = exec chk (run chk s cs) c"
  by simp

lemma exec_SetEncryptedGuardians [simp]:
  "exec chk s (SetEncryptedGuardians a gs) = s\<lparr>userGuardians := (userGuardians s)(a := gs)\<rparr>"
  by (simp add: exec_def setEncryptedGuardians_eq)

lemma exec_RequestWalletRecovery:
  "exec chk s (RequestWalletRecovery a t) =
     (if requestCounter s = - 1 then s
      else s\<lparr>requestCounter := requestCounter s + 1,
             recoveryRequests := (recoveryRequests s)(requestCounter s + 1 :=
               \<lparr>requestId = requestCounter s + 1, encryptedApprovalCount = FHE_asEuint32 0,
                timestamp = t, executed = False\<rparr>),
             requestToUser := (requestToUser s)(requestCounter s + 1 := a),
             events := events s @ [RecoveryRequested (requestCounter s + 1) t]\<rparr>)"
  by (simp add: exec_def requestWalletRecovery_def onlyUser_def Let_def)

lemma exec_SubmitEncryptedApproval:
  "exec chk s (SubmitEncryptedApproval rid v) =
     (case submitEncryptedApproval s rid v of Inl e \<Rightarrow> s | Inr s' \<Rightarrow> s')"
  by (simp add: exec_def)

lemma exec_RequestApprovalDecryption:
  "exec chk s (RequestApprovalDecryption a rid d) =
     (case requestApprovalDecryption s a rid d of Inl e \<Rightarrow> s | Inr s' \<Rightarrow> s')"
  by (simp add: exec_def)

lemma exec_DecryptApproval:
  "exec chk s (DecryptApproval d cleartexts pf) =
     (case decryptApproval chk s d cleartexts pf of Inl e \<Rightarrow> s | Inr s' \<Rightarrow> s')"
  by (simp add: exec_def)

lemma userGuardians_exec:
  "\<not> configures h c \<Longrightarrow> userGuardians (exec chk s c) h = userGuardians s h"
  by (cases c)
     (auto simp: exec_def requestWalletRecovery_def submitEncryptedApproval_def
        requestApprovalDecryption_def decryptApproval_def onlyUser_def Let_def
        setEncryptedGuardians_eq split: option.splits)

lemma userGuardians_run:
  "filter (configures h) cs = [] \<Longrightarrow> userGuardians (run chk s cs) h = userGuardians s h"
proof (induction cs arbitrary: s)
  case Nil
  then show ?case by simp
next
  case (Cons c cs)
  then have "\<not> configures h c" and "filter (configures h) cs = []"
    by (auto split: if_splits)
  with Cons.IH [of "exec chk s c"] show ?case
    by (simp add: userGuardians_exec)
qed

subsection \<open>ABI encoding\<close>

lemma be_nat_zeros: "foldl (\<lambda>acc b. acc * 256 + unat (b::8 word)) 0 (replicate n 0) = 0"
  by (induction n) simp_all

lemma be_nat_encode:
  "be_nat (replicate n 0 @ [a, b, c, d]) = ((unat a * 256 + unat b) * 256 + unat c) * 256 + unat d"
  by (simp add: be_nat_def be_nat_zeros)

lemma byte_digits:
  fixes x :: nat
  assumes "x < 2 ^ 32"
  shows "((x div 2 ^ 24 mod 256 * 256 + x div 2 ^ 16 mod 256) * 256 + x div 2 ^ 8 mod 256) * 256
           + x mod 256 = x"
proof -
  have a: "x div 2 ^ 24 mod 256 = x div 2 ^ 24"
    using assms by (simp add: less_mult_imp_div_less)
  have "x div 2 ^ 24 = x div 2 ^ 16 div 256"
    using div_mult2_eq [of x "2 ^ 16" 256] by simp
  then have b: "x div 2 ^ 16 = (x div 2 ^ 24) * 256 + x div 2 ^ 16 mod 256"
    by simp
  have "x div 2 ^ 16 = x div 2 ^ 8 div 256"
    using div_mult2_eq [of x "2 ^ 8" 256] by simp
  then have c: "x div 2 ^ 8 = (x div 2 ^ 16) * 256 + x div 2 ^ 8 mod 256"
    by simp
  have d: "x = (x div 2 ^ 8) * 256 + x mod 256"
    by simp
  show ?thesis
    using a b c d by simp
qed

lemma unat_byte: "unat (ucast (drop_bit k (v::32 word)) :: 8 word) = unat v div 2 ^ k mod 256"
  by (simp only: unsigned_ucast_eq unat_drop_bit_eq) (simp add: take_bit_eq_mod drop_bit_eq_div)

lemma abi_decode_encode: "abi_decode_uint32 (abi_encode_uint32 v) = Some v"
proof -
  have l: "length (abi_encode_uint32 v) = 32"
    by (simp add: abi_encode_uint32_def)
  have "be_nat (abi_encode_uint32 v) =
          ((unat v div 2 ^ 24 mod 256 * 256 + unat v div 2 ^ 16 mod 256) * 256
             + unat v div 2 ^ 8 mod 256) * 256 + unat v mod 256"
    unfolding abi_encode_uint32_def be_nat_encode unat_byte
    by (simp add: unsigned_ucast_eq take_bit_eq_mod)
  also have "\<dots> = unat v"
    by (rule byte_digits) (use unsigned_less [of v, where 'a = nat] in simp)
  finally have v: "be_nat (abi_encode_uint32 v) = unat v" .
  have "unat v < 2 ^ 32"
    using unsigned_less [of v, where 'a = nat] by simp
  with l v show ?thesis
    by (simp add: abi_decode_uint32_def)
qed

subsection \<open>Folding votes into a counter\<close>

lemma decrypt_fold_votes:
  "decrypt (fold_votes c votes) = decrypt c + of_nat (length (filter ebool_value votes))"
  by (induction votes arbitrary: c) simp_all

lemma submitApprovals_open:
  assumes "0 < rid" and "rid \<le> requestCounter s" and "\<not> executed (recoveryRequests s rid)"
  shows "submitApprovals s rid votes =
           Inr (s\<lparr>recoveryRequests := (recoveryRequests s)(rid :=
                  (recoveryRequests s rid)\<lparr>encryptedApprovalCount :=
                     fold_votes (encryptedApprovalCount (recoveryRequests s rid)) votes\<rparr>)\<rparr>)"
  using assms
proof (induction votes arbitrary: s)
  case Nil
  then show ?case by simp
next
  case (Cons v votes)
  show ?case
  proof (cases "ebool_value v")
    case True
    let ?s = "s\<lparr>recoveryRequests := (recoveryRequests s)(rid :=
                (recoveryRequests s rid)\<lparr>encryptedApprovalCount :=
                   FHE_add (encryptedApprovalCount (recoveryRequests s rid)) (FHE_asEuint32 1)\<rparr>)\<rparr>"
    have step: "submitEncryptedApproval s rid v = Inr ?s"
      using Cons.prems True by (simp add: submitEncryptedApproval_def Let_def)
    have "submitApprovals ?s rid votes =
            Inr (?s\<lparr>recoveryRequests := (recoveryRequests ?s)(rid :=
                    (recoveryRequests ?s rid)\<lparr>encryptedApprovalCount :=
                       fold_votes (encryptedApprovalCount (recoveryRequests ?s rid)) votes\<rparr>)\<rparr>)"
      using Cons.prems by (intro Cons.IH) simp_all
    also have "\<dots> = Inr (s\<lparr>recoveryRequests := (recoveryRequests s)(rid :=
                  (recoveryRequests s rid)\<lparr>encryptedApprovalCount :=
                     fold_votes (encryptedApprovalCount (recoveryRequests s rid)) (v # votes)\<rparr>)\<rparr>)"
      using True by simp
    finally have rest: "submitApprovals ?s rid votes =
        Inr (s\<lparr>recoveryRequests := (recoveryRequests s)(rid :=
                  (recoveryRequests s rid)\<lparr>encryptedApprovalCount :=
                     fold_votes (encryptedApprovalCount (recoveryRequests s rid)) (v # votes)\<rparr>)\<rparr>)" .
    show ?thesis
      by (simp only: submitApprovals.simps step sum.case rest)
  next
    case False
    have step: "submitEncryptedApproval s rid v = Inr s"
      using Cons.prems False by (simp add: submitEncryptedApproval_def Let_def)
    show ?thesis
      using Cons.IH [OF Cons.prems] False by (simp add: step)
  qed
qed

lemma run_submissions:
  assumes "0 < rid" and "rid \<le> requestCounter s" and "\<not> executed (recoveryRequests s rid)"
  shows "Inr (run chk s (map (SubmitEncryptedApproval rid) votes)) = submitApprovals s rid votes"
  using assms
proof (induction votes arbitrary: s)
  case Nil
  then show ?case by (simp add: run_def)
next
  case (Cons v votes)
  obtain s' where step: "submitEncryptedApproval s rid v = Inr s'"
    and keep: "requestCounter s' = requestCounter s"
      "executed (recoveryRequests s' rid) = executed (recoveryRequests s rid)"
    using Cons.prems by (cases "ebool_value v") (simp_all add: submitEncryptedApproval_def Let_def)
  have "Inr (run chk s' (map (SubmitEncryptedApproval rid) votes)) = submitApprovals s' rid votes"
    using Cons.prems keep by (intro Cons.IH) simp_all
  then show ?case
    by (simp add: run_def exec_def step)
qed

lemma decrypted_count_after_open:
  assumes "0 < rid" and "rid \<le> requestCounter s" and "\<not> executed (recoveryRequests s rid)"
  shows "decrypted_count_after s rid votes =
           Some (decrypt (encryptedApprovalCount (recoveryRequests s rid))
                 + of_nat (length (filter ebool_value votes)))"
  by (simp add: decrypted_count_after_def submitApprovals_open [OF assms] decrypt_fold_votes)

lemma count_approvals_mset:
  "mset votes' = mset votes \<Longrightarrow>
   length (filter ebool_value votes') = length (filter ebool_value votes)"
  by (metis mset_filter size_mset)

lemma decrypt_approvals [simp]:
  "decrypt (fold_votes (FHE_asEuint32 0) (replicate k (Ebool True))) = of_nat k"
  by (simp add: decrypt_fold_votes)

subsection \<open>The checked increment of the request counter\<close>

lemma unat_next:
  fixes c :: uint256
  assumes "c \<noteq> - 1"
  shows "unat (c + 1) = Suc (unat c)"
proof -
  have "1 + c \<noteq> 0"
    using assms max_word_wrap [of c] by (auto simp: add.commute)
  then show ?thesis
    using unatSuc [of c] by (simp add: add.commute)
qed

lemma next_greater:
  fixes c :: uint256
  assumes "c \<noteq> - 1"
  shows "c < c + 1" and "0 < c + 1" and "d \<le> c \<Longrightarrow> d \<le> c + 1" and "d \<le> c \<Longrightarrow> d \<noteq> c + 1"
  using unat_next [OF assms] by (auto simp: word_less_nat_alt word_le_nat_alt)

subsection \<open>What a transaction preserves\<close>

lemma requestCounter_exec: "requestCounter s \<le> requestCounter (exec chk s c)"
proof (cases c)
  case (RequestWalletRecovery a t)
  then show ?thesis
    using next_greater(3) [of "requestCounter s" "requestCounter s"]
    by (simp add: exec_RequestWalletRecovery)
qed (auto simp: exec_def setEncryptedGuardians_eq submitEncryptedApproval_def
       requestApprovalDecryption_def decryptApproval_def onlyUser_def Let_def
       split: option.splits)

lemma requestCounter_run: "requestCounter s \<le> requestCounter (run chk s cs)"
proof (induction cs arbitrary: s)
  case Nil
  then show ?case by simp
next
  case (Cons c cs)
  show ?case
    using Cons.IH [of "exec chk s c"] requestCounter_exec [of s chk c] by simp
qed

lemma unat_requestCounter_exec:
  "unat (requestCounter (exec chk s c)) \<le> Suc (unat (requestCounter s))"
proof (cases c)
  case (RequestWalletRecovery a t)
  then show ?thesis
    by (simp add: exec_RequestWalletRecovery unat_next)
qed (auto simp: exec_def setEncryptedGuardians_eq submitEncryptedApproval_def
       requestApprovalDecryption_def decryptApproval_def onlyUser_def Let_def
       split: option.splits)

lemma unat_requestCounter_run:
  "unat (requestCounter (run chk initial_state cs)) \<le> length cs"
proof (induction cs rule: rev_induct)
  case Nil
  show ?case by (simp add: initial_state_def)
next
  case (snoc c cs)
  show ?case
    unfolding run_snoc
    using snoc unat_requestCounter_exec [of chk "run chk initial_state cs" c] by simp
qed

lemma requestCounter_not_max:
  assumes "length cs < unat (- 1 :: uint256)"
  shows "requestCounter (run chk initial_state cs) \<noteq> - 1"
proof
  assume "requestCounter (run chk initial_state cs) = - 1"
  then have "unat (- 1 :: uint256) \<le> length cs"
    using unat_requestCounter_run [of chk cs] by (simp only:)
  with assms show False
    by (rule less_le_not_le [THEN iffD1, THEN conjunct2, THEN notE])
qed

lemma executed_exec:
  assumes "rid \<le> requestCounter s" and "executed (recoveryRequests s rid)"
  shows "recoveryRequests (exec chk s c) rid = recoveryRequests s rid"
proof (cases c)
  case (RequestWalletRecovery a t)
  then show ?thesis
    using next_greater(4) [of "requestCounter s" rid] assms
    by (simp add: exec_RequestWalletRecovery)
next
  case (SubmitEncryptedApproval r v)
  then show ?thesis
    using assms by (auto simp: exec_def submitEncryptedApproval_def Let_def)
next
  case (DecryptApproval d ct pf)
  then show ?thesis
    using assms by (auto simp: exec_def decryptApproval_def Let_def split: option.splits)
qed (auto simp: exec_def setEncryptedGuardians_eq requestApprovalDecryption_def onlyUser_def
       Let_def)

lemma executed_run:
  assumes "rid \<le> requestCounter s" and "executed (recoveryRequests s rid)"
  shows "recoveryRequests (run chk s cs) rid = recoveryRequests s rid
       \<and> rid \<le> requestCounter (run chk s cs)"
  using assms
proof (induction cs arbitrary: s)
  case Nil
  then show ?case by simp
next
  case (Cons c cs)
  have a: "rid \<le> requestCounter (exec chk s c)"
    using Cons.prems(1) requestCounter_exec [of s chk c] by simp
  have b: "recoveryRequests (exec chk s c) rid = recoveryRequests s rid"
    using Cons.prems by (rule executed_exec)
  show ?case
    using Cons.IH [OF a] b Cons.prems(2) by simp
qed

lemma exec_keeps_tables:
  assumes "\<And>a t. c \<noteq> RequestWalletRecovery a t"
    and "\<And>a r d. c \<noteq> RequestApprovalDecryption a r d"
  shows "requestToUser (exec chk s c) = requestToUser s
       \<and> requestCounter (exec chk s c) = requestCounter s
       \<and> decryptionRequests (exec chk s c) = decryptionRequests s"
  using assms
  by (cases c)
     (auto simp: exec_def setEncryptedGuardians_eq submitEncryptedApproval_def
        decryptApproval_def Let_def split: option.splits)

subsection \<open>Invariants of the states reached from deployment\<close>

lemma created_ids_append: "created_ids (es @ fs) = created_ids es @ created_ids fs"
  by (induction es rule: created_ids.induct) simp_all

lemma created_ids_exec:
  assumes "created_ids (events s) = map of_nat [1..<Suc (unat (requestCounter s))]"
  shows "created_ids (events (exec chk s c)) =
           map of_nat [1..<Suc (unat (requestCounter (exec chk s c)))]"
proof (cases c)
  case (RequestWalletRecovery a t)
  show ?thesis
  proof (cases "requestCounter s = - 1")
    case True
    with assms RequestWalletRecovery show ?thesis
      by (simp add: exec_RequestWalletRecovery)
  next
    case False
    have "(of_nat (Suc (unat (requestCounter s))) :: uint256) = requestCounter s + 1"
      by simp
    with assms RequestWalletRecovery False show ?thesis
      by (simp add: exec_RequestWalletRecovery unat_next created_ids_append)
  qed
qed (use assms in \<open>auto simp: exec_def setEncryptedGuardians_eq submitEncryptedApproval_def
       requestApprovalDecryption_def decryptApproval_def onlyUser_def Let_def created_ids_append
       split: option.splits\<close>)

lemma created_ids_run:
  "created_ids (events (run chk initial_state cs)) =
     map of_nat [1..<Suc (unat (requestCounter (run chk initial_state cs)))]"
proof (induction cs rule: rev_induct)
  case Nil
  show ?case by (simp add: initial_state_def)
next
  case (snoc c cs)
  then show ?case
    unfolding run_snoc by (rule created_ids_exec)
qed

lemma distinct_ids:
  fixes c :: uint256
  shows "distinct (map of_nat [1..<Suc (unat c)] :: uint256 list)"
proof -
  have "inj_on (of_nat :: nat \<Rightarrow> uint256) {1..<Suc (unat c)}"
  proof (rule inj_onI)
    fix x y
    assume x: "x \<in> {1..<Suc (unat c)}" and y: "y \<in> {1..<Suc (unat c)}"
      and eq: "(of_nat x :: uint256) = of_nat y"
    from x y have "x \<le> unat c" "y \<le> unat c"
      by auto
    then have u: "unat (of_nat x :: uint256) = x" "unat (of_nat y :: uint256) = y"
      by (auto intro: le_unat_uoi)
    from arg_cong [OF eq, of unat] show "x = y"
      by (simp only: u)
  qed
  then show ?thesis
    by (simp only: distinct_map distinct_upt set_upt simp_thms)
qed

lemma requestToUser_exec:
  assumes "\<And>d. requestToUser s d \<noteq> 0 \<Longrightarrow> known s d"
    and "requestToUser (exec chk s c) d \<noteq> 0"
  shows "known (exec chk s c) d"
proof (cases c)
  case (RequestWalletRecovery a t)
  show ?thesis
  proof (cases "requestCounter s = - 1")
    case True
    with assms RequestWalletRecovery show ?thesis
      by (simp add: exec_RequestWalletRecovery)
  next
    case False
    show ?thesis
    proof (cases "d = requestCounter s + 1")
      case True
      with False RequestWalletRecovery show ?thesis
        by (simp add: exec_RequestWalletRecovery known_def next_greater(2))
    next
      case neq: False
      with assms(2) RequestWalletRecovery False have "requestToUser s d \<noteq> 0"
        by (simp add: exec_RequestWalletRecovery)
      then have "known s d"
        by (rule assms(1))
      with False RequestWalletRecovery show ?thesis
        by (auto simp: exec_RequestWalletRecovery known_def next_greater(3))
    qed
  qed
next
  case (RequestApprovalDecryption a r d')
  show ?thesis
  proof (cases "executed (recoveryRequests s r)")
    case True
    with assms RequestApprovalDecryption show ?thesis
      by (simp add: exec_def requestApprovalDecryption_def onlyUser_def)
  next
    case False
    show ?thesis
    proof (cases "d = d'")
      case True
      with False RequestApprovalDecryption show ?thesis
        by (simp add: exec_def requestApprovalDecryption_def onlyUser_def known_def)
    next
      case neq: False
      with assms(2) RequestApprovalDecryption False have "requestToUser s d \<noteq> 0"
        by (simp add: exec_def requestApprovalDecryption_def onlyUser_def)
      then have "known s d"
        by (rule assms(1))
      with False RequestApprovalDecryption show ?thesis
        by (auto simp: exec_def requestApprovalDecryption_def onlyUser_def known_def)
    qed
  qed
next
  case (SetEncryptedGuardians a gs)
  then have "known (exec chk s c) d = known s d" and "requestToUser (exec chk s c) = requestToUser s"
    using exec_keeps_tables [of c chk s] by (simp_all add: known_def)
  with assms show ?thesis
    by simp
next
  case (SubmitEncryptedApproval r v)
  then have "known (exec chk s c) d = known s d" and "requestToUser (exec chk s c) = requestToUser s"
    using exec_keeps_tables [of c chk s] by (simp_all add: known_def)
  with assms show ?thesis
    by simp
next
  case (DecryptApproval r ct pf)
  then have "known (exec chk s c) d = known s d" and "requestToUser (exec chk s c) = requestToUser s"
    using exec_keeps_tables [of c chk s] by (simp_all add: known_def)
  with assms show ?thesis
    by simp
qed

lemma requestToUser_run:
  "requestToUser (run chk initial_state cs) d \<noteq> 0 \<Longrightarrow> known (run chk initial_state cs) d"
proof (induction cs arbitrary: d rule: rev_induct)
  case Nil
  then show ?case by (simp add: initial_state_def no_users_def)
next
  case (snoc c cs)
  show ?case
    unfolding run_snoc
    by (rule requestToUser_exec [OF snoc.IH]) (use snoc.prems in simp_all)
qed

subsection \<open>The scenarios\<close>

lemma one_request_eq:
  "one_request =
     initial_state\<lparr>requestCounter := 1,
       recoveryRequests := no_requests(1 :=
         \<lparr>requestId = 1, encryptedApprovalCount = FHE_asEuint32 0, timestamp = 1000,
          executed = False\<rparr>),
       requestToUser := no_users(1 := alice),
       events := [RecoveryRequested 1 1000]\<rparr>"
  by (simp add: one_request_def exec_def requestWalletRecovery_def onlyUser_def initial_state_def)

lemma one_request_run: "run honest_check initial_state [RequestWalletRecovery alice 1000] = one_request"
  by (simp add: one_request_def)

lemma one_request_open:
  "0 < (1::uint256)" "1 \<le> requestCounter one_request"
  "\<not> executed (recoveryRequests one_request 1)"
  "encryptedApprovalCount (recoveryRequests one_request 1) = FHE_asEuint32 0"
  by (simp_all add: one_request_eq)

lemma round_state_eq:
  "round_state n k d =
     \<lparr>requestCounter = 1,
      userGuardians = no_guardians(alice := map guardian [0..<n]),
      recoveryRequests = no_requests(1 :=
         \<lparr>requestId = 1,
          encryptedApprovalCount = fold_votes (FHE_asEuint32 0) (replicate k (Ebool True)),
          timestamp = 1000, executed = False\<rparr>),
      requestToUser = (no_users(1 := alice))(d := alice),
      events = [RecoveryRequested 1 1000],
      decryptionRequests =
        [(d, [fold_votes (FHE_asEuint32 0) (replicate k (Ebool True))])]\<rparr>"
proof -
  let ?s1 = "\<lparr>requestCounter = 1,
      userGuardians = no_guardians(alice := map guardian [0..<n]),
      recoveryRequests = no_requests(1 :=
         \<lparr>requestId = 1, encryptedApprovalCount = FHE_asEuint32 0,
          timestamp = 1000, executed = False\<rparr>),
      requestToUser = no_users(1 := alice),
      events = [RecoveryRequested 1 1000],
      decryptionRequests = []\<rparr>"
  let ?s2 = "?s1\<lparr>recoveryRequests := (recoveryRequests ?s1)(1 :=
                  (recoveryRequests ?s1 1)\<lparr>encryptedApprovalCount :=
                     fold_votes (encryptedApprovalCount (recoveryRequests ?s1 1))
                       (replicate k (Ebool True))\<rparr>)\<rparr>"
  have s1: "run honest_check initial_state
     [SetEncryptedGuardians alice (map guardian [0..<n]), RequestWalletRecovery alice 1000] = ?s1"
    by (simp add: exec_def setEncryptedGuardians_eq requestWalletRecovery_def onlyUser_def
          initial_state_def)
  have ap: "replicate k approve = map (SubmitEncryptedApproval 1) (replicate k (Ebool True))"
    by (simp add: approve_def)
  have "Inr (run honest_check ?s1 (replicate k approve)) =
      submitApprovals ?s1 1 (replicate k (Ebool True))"
    unfolding ap by (rule run_submissions) simp_all
  also have "\<dots> = Inr ?s2"
    by (rule submitApprovals_open) simp_all
  finally have s2: "run honest_check ?s1 (replicate k approve) = ?s2"
    by (simp only: sum.inject)
  show ?thesis
    unfolding round_state_def round_calls_def run_append s1 s2
    by (simp add: exec_def requestApprovalDecryption_def onlyUser_def FHE_toBytes32_def)
qed

lemma round_state_callback:
  "requestToUser (round_state n k 1) 1 = alice"
  "alice \<noteq> 0"
  "honest_check (decryptionRequests (round_state n k 1)) 1 (abi_encode_uint32 (of_nat k)) pf"
  "\<not> executed (recoveryRequests (round_state n k 1) 1)"
  "getGuardianCount (round_state n k 1) alice = n"
  "requestId (recoveryRequests (round_state n k 1) 1) = 1"
  by (simp_all add: round_state_eq honest_check_def abi_decode_encode getGuardianCount_def
        alice_def)

lemma duplicate_round_state_eq:
  "duplicate_round_state =
     \<lparr>requestCounter = 1,
      userGuardians = no_guardians(alice := map guardian [0..<3]),
      recoveryRequests = no_requests(1 :=
         \<lparr>requestId = 1,
          encryptedApprovalCount = fold_votes (FHE_asEuint32 0) (replicate 2 (Ebool True)),
          timestamp = 1000, executed = True\<rparr>),
      requestToUser = (no_users(1 := alice))(0 := alice),
      events = [RecoveryRequested 1 1000, RecoveryExecuted 1],
      decryptionRequests =
        [(0, [fold_votes (FHE_asEuint32 0) (replicate 2 (Ebool True))]),
         (1, [fold_votes (FHE_asEuint32 0) (replicate 2 (Ebool True))])]\<rparr>"
  by (simp add: duplicate_round_state_def round_state_eq exec_RequestApprovalDecryption
        requestApprovalDecryption_def onlyUser_def FHE_toBytes32_def exec_DecryptApproval
        decryptApproval_def Let_def honest_check_def abi_decode_encode alice_def fun_upd_twist)

subsection \<open>Requests that are executed, identifiers without an entry\<close>

text \<open>
  For an existing request, once its \<open>executed\<close> flag is set no transaction changes
  its stored record; \<^verbatim>\<open>submitEncryptedApproval\<close> on it and every callback called with
  its own identifier revert.
\<close>

lemma executed_is_final:
  assumes "0 < rid" and "rid \<le> requestCounter s"
  shows "(executed (recoveryRequests (run chk s calls) rid) \<longrightarrow>
            recoveryRequests (run chk s (calls @ later)) rid = recoveryRequests (run chk s calls) rid)
       \<and> (executed (recoveryRequests s rid) \<longrightarrow>
            submitEncryptedApproval s rid v = Inl AlreadyExecuted
          \<and> exec chk s (SubmitEncryptedApproval rid v) = s
          \<and> isl (decryptApproval chk s rid cleartexts pf)
          \<and> exec chk s (DecryptApproval rid cleartexts pf) = s)
       \<and> (executed (recoveryRequests s rid) \<and> requestToUser s rid \<noteq> 0
            \<and> chk (decryptionRequests s) rid cleartexts pf
            \<and> abi_decode_uint32 cleartexts = Some c \<longrightarrow>
            decryptApproval chk s rid cleartexts pf = Inl AlreadyExecuted)"
proof (intro conjI impI)
  assume e: "executed (recoveryRequests (run chk s calls) rid)"
  have "rid \<le> requestCounter (run chk s calls)"
    using assms(2) requestCounter_run [of s chk calls] by simp
  then show "recoveryRequests (run chk s (calls @ later)) rid = recoveryRequests (run chk s calls) rid"
    using executed_run [OF _ e, of chk later] by simp
next
  assume e: "executed (recoveryRequests s rid)"
  show "submitEncryptedApproval s rid v = Inl AlreadyExecuted"
    using assms e by (simp add: submitEncryptedApproval_def)
  then show "exec chk s (SubmitEncryptedApproval rid v) = s"
    by (simp add: exec_def)
  show l: "isl (decryptApproval chk s rid cleartexts pf)"
    using e by (simp add: decryptApproval_def Let_def split: option.splits)
  then show "exec chk s (DecryptApproval rid cleartexts pf) = s"
    by (cases "decryptApproval chk s rid cleartexts pf") (simp_all add: exec_def)
next
  assume "executed (recoveryRequests s rid) \<and> requestToUser s rid \<noteq> 0
            \<and> chk (decryptionRequests s) rid cleartexts pf
            \<and> abi_decode_uint32 cleartexts = Some c"
  then show "decryptApproval chk s rid cleartexts pf = Inl AlreadyExecuted"
    by (simp add: decryptApproval_def)
qed

text \<open>
  A callback whose identifier has the zero address in \<^verbatim>\<open>requestToUser\<close> reverts with
  \<^verbatim>\<open>Invalid request\<close>; in a state reached from deployment that is every identifier
  which no decryption issuance returned and which is not the identifier of a created
  request.
\<close>

lemma decryptApproval_unknown_id:
  "(requestToUser s d = 0 \<longrightarrow>
      decryptApproval chk s d cleartexts pf = Inl InvalidRequest
      \<and> exec chk s (DecryptApproval d cleartexts pf) = s)
   \<and> (d \<notin> fst ` set (decryptionRequests (run chk initial_state calls))
       \<and> (d = 0 \<or> requestCounter (run chk initial_state calls) < d) \<longrightarrow>
      decryptApproval chk (run chk initial_state calls) d cleartexts pf = Inl InvalidRequest)"
proof (intro conjI impI)
  assume "requestToUser s d = 0"
  then show "decryptApproval chk s d cleartexts pf = Inl InvalidRequest"
    by (simp add: decryptApproval_def)
  then show "exec chk s (DecryptApproval d cleartexts pf) = s"
    by (simp add: exec_DecryptApproval)
next
  assume h: "d \<notin> fst ` set (decryptionRequests (run chk initial_state calls))
       \<and> (d = 0 \<or> requestCounter (run chk initial_state calls) < d)"
  then have "\<not> known (run chk initial_state calls) d"
    by (auto simp: known_def)
  then have "requestToUser (run chk initial_state calls) d = 0"
    using requestToUser_run [of chk calls d] by blast
  then show "decryptApproval chk (run chk initial_state calls) d cleartexts pf = Inl InvalidRequest"
    by (simp add: decryptApproval_def)
qed

section \<open>The guardian registry\<close>

text \<open>
  Claim C9. \<^verbatim>\<open>setEncryptedGuardians\<close> called by a holder with the sequence \<open>cs\<close>
  never reverts and replaces the holder's stored guardian array by exactly \<open>cs\<close>,
  whatever it held before, leaving every other holder's array and every other storage
  variable as they were; immediately afterwards \<^verbatim>\<open>getGuardianCount\<close> of the holder is
  the length of \<open>cs\<close>. \<^verbatim>\<open>getGuardianCount\<close> is a view function, a function of the
  storage alone, and in every state reached from deployment by calls among which the
  holder never sent \<^verbatim>\<open>setEncryptedGuardians\<close> it returns 0.
\<close>

theorem setEncryptedGuardians_replaces:
  "setEncryptedGuardians s holder cs =
     Inr (s\<lparr>userGuardians := (userGuardians s)(holder := cs)\<rparr>)
   \<and> getGuardianCount (exec chk s (SetEncryptedGuardians holder cs)) holder = length cs
   \<and> (filter (configures holder) calls = [] \<longrightarrow>
        getGuardianCount (run chk initial_state calls) holder = 0)"
  by (simp add: setEncryptedGuardians_eq getGuardianCount_def userGuardians_run
        initial_state_def no_guardians_def)

text \<open>
  The instance: Alice replaces one guardian by two, and Bob, who never configured
  guardians, has none.
\<close>

theorem setEncryptedGuardians_replaces_witness:
  "setEncryptedGuardians (exec honest_check initial_state (SetEncryptedGuardians alice [guardian 0])) alice
       [guardian 1, guardian 2] =
     Inr ((exec honest_check initial_state (SetEncryptedGuardians alice [guardian 0]))
            \<lparr>userGuardians :=
               (userGuardians (exec honest_check initial_state (SetEncryptedGuardians alice [guardian 0])))
               (alice := [guardian 1, guardian 2])\<rparr>)
   \<and> getGuardianCount
        (exec honest_check (exec honest_check initial_state (SetEncryptedGuardians alice [guardian 0]))
           (SetEncryptedGuardians alice [guardian 1, guardian 2])) alice = 2
   \<and> filter (configures bob) [SetEncryptedGuardians alice [guardian 0], RequestWalletRecovery bob 5] = []
   \<and> getGuardianCount
        (run honest_check initial_state
           [SetEncryptedGuardians alice [guardian 0], RequestWalletRecovery bob 5]) bob = 0"
  using setEncryptedGuardians_replaces
    [where s = "exec honest_check initial_state (SetEncryptedGuardians alice [guardian 0])"
       and holder = alice and cs = "[guardian 1, guardian 2]" and chk = honest_check]
    setEncryptedGuardians_replaces
    [where holder = bob and chk = honest_check
       and calls = "[SetEncryptedGuardians alice [guardian 0], RequestWalletRecovery bob 5]"]
  by (simp add: alice_def bob_def)

section \<open>The recovery request store\<close>

text \<open>
  Claim C8. \<^verbatim>\<open>requestCounter\<close> is 0 at deployment and is written by nothing but the
  checked \<^verbatim>\<open>requestCounter += 1\<close> of \<^verbatim>\<open>requestWalletRecovery\<close>, so a state whose
  counter is the largest 256-bit value is reached only after that many successful
  creations: after fewer than \<open>2 ^ 256 - 1\<close> transactions the counter is below it. In
  every such state the call succeeds: it increments the counter by one, stores under
  the new value a request with that identifier, a counter that is an encryption of
  zero, the block timestamp and \<open>executed = False\<close>, records the caller as its owner
  and emits \<^verbatim>\<open>RecoveryRequested\<close> with the identifier and the timestamp. No
  transaction decreases the counter, and in every state reached from deployment the
  identifiers of the creation events are \<open>1, 2, \<dots>, requestCounter\<close> in this order:
  the n-th request created has identifier n, and no identifier occurs twice.
\<close>

theorem requestWalletRecovery_allocates:
  "(requestCounter s \<noteq> - 1 \<longrightarrow>
      requestWalletRecovery s a t =
        Inr (s\<lparr>requestCounter := requestCounter s + 1,
               recoveryRequests := (recoveryRequests s)(requestCounter s + 1 :=
                 \<lparr>requestId = requestCounter s + 1, encryptedApprovalCount = FHE_asEuint32 0,
                  timestamp = t, executed = False\<rparr>),
               requestToUser := (requestToUser s)(requestCounter s + 1 := a),
               events := events s @ [RecoveryRequested (requestCounter s + 1) t]\<rparr>)
      \<and> unat (requestCounter s + 1) = unat (requestCounter s) + 1)
   \<and> (requestCounter s = - 1 \<longrightarrow> requestWalletRecovery s a t = Inl ArithmeticPanic)
   \<and> decrypt (FHE_asEuint32 0) = 0
   \<and> requestCounter initial_state = 0
   \<and> (length calls < unat (- 1 :: uint256) \<longrightarrow>
        requestCounter (run chk initial_state calls) \<noteq> - 1
        \<and> \<not> isl (requestWalletRecovery (run chk initial_state calls) a t))
   \<and> requestCounter s \<le> requestCounter (exec chk s c)
   \<and> created_ids (events (run chk initial_state calls)) =
       map of_nat [1..<Suc (unat (requestCounter (run chk initial_state calls)))]
   \<and> distinct (created_ids (events (run chk initial_state calls)))"
proof (intro conjI impI)
  show "created_ids (events (run chk initial_state calls)) =
       map of_nat [1..<Suc (unat (requestCounter (run chk initial_state calls)))]"
    by (rule created_ids_run)
  then show "distinct (created_ids (events (run chk initial_state calls)))"
    by (simp only: distinct_ids)
  show "requestCounter s \<le> requestCounter (exec chk s c)"
    by (rule requestCounter_exec)
  assume "length calls < unat (- 1 :: uint256)"
  then show n: "requestCounter (run chk initial_state calls) \<noteq> - 1"
    by (rule requestCounter_not_max)
  then show "\<not> isl (requestWalletRecovery (run chk initial_state calls) a t)"
    by (simp add: requestWalletRecovery_def onlyUser_def Let_def)
qed (simp_all add: requestWalletRecovery_def onlyUser_def Let_def unat_next initial_state_def)

text \<open>
  The instance: the first request of a fresh contract has identifier 1; after two
  creations with a vote in between the identifiers are 1 and 2, and the next creation
  succeeds.
\<close>

theorem requestWalletRecovery_allocates_witness:
  "requestWalletRecovery initial_state alice 1000 =
     Inr (initial_state\<lparr>requestCounter := 1,
            recoveryRequests := (recoveryRequests initial_state)(1 :=
              \<lparr>requestId = 1, encryptedApprovalCount = FHE_asEuint32 0,
               timestamp = 1000, executed = False\<rparr>),
            requestToUser := (requestToUser initial_state)(1 := alice),
            events := [RecoveryRequested 1 1000]\<rparr>)
   \<and> created_ids (events (run honest_check initial_state
         [RequestWalletRecovery alice 1000, approve, RequestWalletRecovery bob 2000])) = [1, 2]
   \<and> length [RequestWalletRecovery alice 1000, approve, RequestWalletRecovery bob 2000]
       < unat (- 1 :: uint256)
   \<and> \<not> isl (requestWalletRecovery
         (run honest_check initial_state
            [RequestWalletRecovery alice 1000, approve, RequestWalletRecovery bob 2000])
         alice 1000)"
proof -
  let ?calls = "[RequestWalletRecovery alice 1000, approve, RequestWalletRecovery bob 2000]"
  have c: "requestCounter (run honest_check initial_state ?calls) = 2"
    by (simp add: exec_RequestWalletRecovery initial_state_def approve_def
          exec_SubmitEncryptedApproval submitEncryptedApproval_def)
  have n: "requestCounter initial_state \<noteq> - 1"
    by (simp add: initial_state_def)
  note inst = requestWalletRecovery_allocates [where s = initial_state and a = alice
      and t = 1000 and chk = honest_check and calls = ?calls]
  from inst have "created_ids (events (run honest_check initial_state ?calls)) =
       map of_nat [1..<Suc (unat (requestCounter (run honest_check initial_state ?calls)))]"
    by blast
  also have "\<dots> = [1, 2]"
    unfolding c by (simp add: upt_rec)
  finally have ids: "created_ids (events (run honest_check initial_state ?calls)) = [1, 2]" .
  from inst n have "requestWalletRecovery initial_state alice 1000 =
        Inr (initial_state\<lparr>requestCounter := requestCounter initial_state + 1,
               recoveryRequests := (recoveryRequests initial_state)(requestCounter initial_state + 1 :=
                 \<lparr>requestId = requestCounter initial_state + 1,
                  encryptedApprovalCount = FHE_asEuint32 0,
                  timestamp = 1000, executed = False\<rparr>),
               requestToUser := (requestToUser initial_state)(requestCounter initial_state + 1 := alice),
               events := events initial_state @ [RecoveryRequested (requestCounter initial_state + 1) 1000]\<rparr>)"
    by blast
  then have "requestWalletRecovery initial_state alice 1000 =
     Inr (initial_state\<lparr>requestCounter := 1,
            recoveryRequests := (recoveryRequests initial_state)(1 :=
              \<lparr>requestId = 1, encryptedApprovalCount = FHE_asEuint32 0,
               timestamp = 1000, executed = False\<rparr>),
            requestToUser := (requestToUser initial_state)(1 := alice),
            events := [RecoveryRequested 1 1000]\<rparr>)"
    by (simp add: initial_state_def)
  moreover have len: "length ?calls < unat (- 1 :: uint256)"
    by (simp add: unsigned_minus_1_eq_mask mask_eq_exp_minus_1)
  moreover from inst len have "\<not> isl (requestWalletRecovery
         (run honest_check initial_state ?calls) alice 1000)"
    by blast
  ultimately show ?thesis
    using ids by (simp only: simp_thms)
qed

section \<open>The approval aggregator\<close>

text \<open>
  Claim C1, as amended. For a request that exists (\<open>0 < rid \<le> requestCounter\<close>) and is
  not executed, \<^verbatim>\<open>submitEncryptedApproval\<close> succeeds; when the vote is an approval the
  request's counter handle is replaced by \<^verbatim>\<open>FHE.add\<close> of the handle it held and
  \<^verbatim>\<open>FHE.asEuint32(1)\<close>, and nothing else changes; when the vote is a rejection the
  state is unchanged. Consequently every sequence of such calls succeeds, and the
  counter then decrypts to its earlier plaintext plus the number of approving votes as a
  32-bit word: starting from a counter that decrypts to 0, the decrypted counter is the
  number of approving votes modulo \<open>2 ^ 32\<close>. The result is the same for every
  reordering of the votes.
\<close>

theorem submitEncryptedApproval_aggregates:
  assumes "0 < rid" and "rid \<le> requestCounter s" and "\<not> executed (recoveryRequests s rid)"
  shows "submitEncryptedApproval s rid v =
           (if ebool_value v
            then Inr (s\<lparr>recoveryRequests := (recoveryRequests s)(rid :=
                        (recoveryRequests s rid)\<lparr>encryptedApprovalCount :=
                           FHE_add (encryptedApprovalCount (recoveryRequests s rid))
                             (FHE_asEuint32 1)\<rparr>)\<rparr>)
            else Inr s)
         \<and> decrypted_count_after s rid votes =
             Some (decrypt (encryptedApprovalCount (recoveryRequests s rid))
                   + of_nat (length (filter ebool_value votes)))
         \<and> (decrypt (encryptedApprovalCount (recoveryRequests s rid)) = 0 \<longrightarrow>
              map_option unat (decrypted_count_after s rid votes) =
                Some (length (filter ebool_value votes) mod 2 ^ 32))
         \<and> (mset votes' = mset votes \<longrightarrow>
              decrypted_count_after s rid votes' = decrypted_count_after s rid votes)"
proof (intro conjI impI)
  show "submitEncryptedApproval s rid v =
           (if ebool_value v
            then Inr (s\<lparr>recoveryRequests := (recoveryRequests s)(rid :=
                        (recoveryRequests s rid)\<lparr>encryptedApprovalCount :=
                           FHE_add (encryptedApprovalCount (recoveryRequests s rid))
                             (FHE_asEuint32 1)\<rparr>)\<rparr>)
            else Inr s)"
    using assms by (simp add: submitEncryptedApproval_def Let_def)
  show "decrypted_count_after s rid votes =
             Some (decrypt (encryptedApprovalCount (recoveryRequests s rid))
                   + of_nat (length (filter ebool_value votes)))"
    using assms by (rule decrypted_count_after_open)
  show "map_option unat (decrypted_count_after s rid votes) =
                Some (length (filter ebool_value votes) mod 2 ^ 32)"
    if "decrypt (encryptedApprovalCount (recoveryRequests s rid)) = 0"
    using that by (simp add: decrypted_count_after_open [OF assms] unat_of_nat)
  show "decrypted_count_after s rid votes' = decrypted_count_after s rid votes"
    if "mset votes' = mset votes"
    using count_approvals_mset [OF that] by (simp add: decrypted_count_after_open [OF assms])
qed

text \<open>
  The instance at the freshly created request 1: an approval, a rejection, and two orders
  of the same three votes.
\<close>

theorem submitEncryptedApproval_aggregates_witness:
  "submitEncryptedApproval one_request 1 (Ebool True) =
     Inr (one_request\<lparr>recoveryRequests := (recoveryRequests one_request)(1 :=
            (recoveryRequests one_request 1)\<lparr>encryptedApprovalCount :=
               FHE_add (FHE_asEuint32 0) (FHE_asEuint32 1)\<rparr>)\<rparr>)
   \<and> submitEncryptedApproval one_request 1 (Ebool False) = Inr one_request
   \<and> decrypted_count_after one_request 1 [Ebool True, Ebool False, Ebool True] = Some 2
   \<and> decrypted_count_after one_request 1 [Ebool False, Ebool True, Ebool True] = Some 2"
  using submitEncryptedApproval_aggregates [OF one_request_open(1-3), of "Ebool True"
          "[Ebool True, Ebool False, Ebool True]" "[Ebool False, Ebool True, Ebool True]"]
        submitEncryptedApproval_aggregates [OF one_request_open(1-3), of "Ebool False" "[]" "[]"]
  by (simp add: one_request_open(4))

text \<open>
  The counter is a \<^verbatim>\<open>euint32\<close>, read back as a \<^verbatim>\<open>uint32\<close>: after \<open>2 ^ 32\<close>
  approving votes on a fresh request, all of which succeed, the decrypted counter is not
  the number of approving votes.
\<close>

theorem submitEncryptedApproval_count_counterexample:
  "map_option unat (decrypted_count_after one_request 1 (replicate (2 ^ 32) (Ebool True)))
     \<noteq> Some (length (filter ebool_value (replicate (2 ^ 32) (Ebool True))))"
proof -
  have "decrypted_count_after one_request 1 (replicate (2 ^ 32) (Ebool True)) =
          Some (of_nat (2 ^ 32))"
    by (simp add: decrypted_count_after_open [OF one_request_open(1-3)] one_request_open(4))
  also have "(of_nat (2 ^ 32) :: uint32) = 0"
    by simp
  finally show ?thesis
    by simp
qed

section \<open>Issuing a decryption\<close>

text \<open>
  Claim C4 says that \<^verbatim>\<open>requestApprovalDecryption\<close> by a caller who does not own the
  request fails with an authorisation error, records nothing and issues no decryption.
  The function carries the modifier \<^verbatim>\<open>onlyUser(requestToUser[requestId])\<close>, whose body
  is empty, and never reads the caller. What the code does: request 1 belongs to Alice;
  Bob calls for its decryption; the call succeeds, a decryption of the counter is
  requested from the oracle (which answers with identifier 7) and the correlation entry
  for 7 is written.
\<close>

theorem requestApprovalDecryption_by_stranger:
  "requestToUser one_request 1 = alice
   \<and> bob \<noteq> alice
   \<and> requestApprovalDecryption one_request bob 1 7 =
       Inr (one_request\<lparr>decryptionRequests := [(7, [FHE_asEuint32 0])],
              requestToUser := (requestToUser one_request)(7 := alice)\<rparr>)"
  by (simp add: requestApprovalDecryption_def onlyUser_def FHE_toBytes32_def one_request_eq
        initial_state_def alice_def bob_def)

text \<open>
  Claim C7 says that \<^verbatim>\<open>requestApprovalDecryption\<close> of an identifier that was never
  created fails with \<^verbatim>\<open>Invalid request\<close> and issues no decryption. The function has no
  such check (\<^verbatim>\<open>submitEncryptedApproval\<close> has it). What the code does on a fresh
  contract, where no request exists, for the identifiers 0 and 5: the call succeeds, the
  uninitialised handle of the empty slot is sent to the oracle, and the correlation entry
  written for the oracle's identifier is the zero address.
\<close>

theorem requestApprovalDecryption_of_missing_request:
  "requestCounter initial_state = 0
   \<and> requestApprovalDecryption initial_state alice 0 7 =
       Inr (initial_state\<lparr>decryptionRequests := [(7, [Uninitialized])],
              requestToUser := (requestToUser initial_state)(7 := 0)\<rparr>)
   \<and> requestApprovalDecryption initial_state alice 5 7 =
       Inr (initial_state\<lparr>decryptionRequests := [(7, [Uninitialized])],
              requestToUser := (requestToUser initial_state)(7 := 0)\<rparr>)"
  by (simp add: requestApprovalDecryption_def onlyUser_def FHE_toBytes32_def
        initial_state_def no_requests_def zero_request_def no_users_def)

section \<open>The decryption callback\<close>

text \<open>
  Claim C3 says that the callback evaluates, and may mark executed, exactly the request
  for which the decryption was issued. The issuance records only the owner under the
  oracle's identifier, and the callback reads \<^verbatim>\<open>recoveryRequests\<close> at the identifier
  it is called with, the oracle's. What the code does in the scenario of three
  guardians, request 1, two approvals and a decryption for which the oracle returned
  identifier 7: the honest callback for 7 with cleartext 2 succeeds, leaves request 1
  not executed, sets the \<open>executed\<close> flag of the never created slot 7 and emits
  \<^verbatim>\<open>RecoveryExecuted(0)\<close>.
\<close>

theorem callback_marks_slot_of_decryption_id:
  "requestCounter (round_state 3 2 7) = 1
   \<and> decryptionRequests (round_state 3 2 7) =
       [(7, [encryptedApprovalCount (recoveryRequests (round_state 3 2 7) 1)])]
   \<and> decrypt (encryptedApprovalCount (recoveryRequests (round_state 3 2 7) 1)) = 2
   \<and> decryptApproval honest_check (round_state 3 2 7) 7 (abi_encode_uint32 2) [] =
       Inr ((round_state 3 2 7)\<lparr>recoveryRequests :=
              (recoveryRequests (round_state 3 2 7))(7 := zero_request\<lparr>executed := True\<rparr>),
              events := [RecoveryRequested 1 1000, RecoveryExecuted 0]\<rparr>)
   \<and> executed (recoveryRequests
         (exec honest_check (round_state 3 2 7) (DecryptApproval 7 (abi_encode_uint32 2) [])) 1)
       = False
   \<and> executed (recoveryRequests
         (exec honest_check (round_state 3 2 7) (DecryptApproval 7 (abi_encode_uint32 2) [])) 7)
       = True"
  by (simp add: exec_DecryptApproval decryptApproval_def Let_def round_state_eq honest_check_def
        abi_decode_encode alice_def no_requests_def zero_request_def no_guardians_def)

text \<open>
  Claim C6 says that a callback whose identifier no decryption issuance ever returned
  fails with \<^verbatim>\<open>Invalid request\<close> and changes nothing. The guard of the callback tests
  \<^verbatim>\<open>requestToUser\<close>, the table in which \<^verbatim>\<open>requestWalletRecovery\<close> records the owner
  of every created request under the request's identifier. What the code does after
  the creation of request 1 alone, when no decryption was ever issued, for a callback
  with identifier 1: the callback passes the guard; the honest oracle's signature
  check stops it, with another error, and under a verifier that accepts it runs to the
  end, sets \<open>executed\<close> on request 1 and emits \<^verbatim>\<open>RecoveryExecuted(1)\<close>.
\<close>

theorem callback_with_request_id_passes_guard:
  "decryptionRequests one_request = []
   \<and> requestToUser one_request 1 = alice
   \<and> decryptApproval honest_check one_request 1 (abi_encode_uint32 0) [] = Inl ProofInvalid
   \<and> decryptApproval accept_all one_request 1 (abi_encode_uint32 1) [] =
       Inr (one_request\<lparr>recoveryRequests :=
              (recoveryRequests one_request)(1 := (recoveryRequests one_request 1)\<lparr>executed := True\<rparr>),
              events := [RecoveryRequested 1 1000, RecoveryExecuted 1]\<rparr>)"
  by (simp add: decryptApproval_def Let_def honest_check_def accept_all_def one_request_eq
        initial_state_def alice_def abi_decode_encode no_guardians_def)

section \<open>The execution evaluator\<close>

text \<open>
  Claim C2. A callback that passes the lookup and the signature check, whose cleartext
  decodes to the count \<open>c\<close>, on a slot that is not executed, always succeeds. With
  \<open>N\<close> the number of guardians of the recorded owner at that moment, it sets
  \<open>executed\<close> and emits \<^verbatim>\<open>RecoveryExecuted\<close> if \<open>N div 2 + 1 \<le> c\<close>, and
  otherwise leaves the whole state, hence the flag, as it was.
\<close>

theorem decryptApproval_majority:
  assumes "requestToUser s rid \<noteq> 0"
    and "chk (decryptionRequests s) rid cleartexts pf"
    and "abi_decode_uint32 cleartexts = Some c"
    and "\<not> executed (recoveryRequests s rid)"
  shows "decryptApproval chk s rid cleartexts pf =
           (if getGuardianCount s (requestToUser s rid) div 2 + 1 \<le> unat c
            then Inr (s\<lparr>recoveryRequests :=
                          (recoveryRequests s)(rid := (recoveryRequests s rid)\<lparr>executed := True\<rparr>),
                        events := events s @ [RecoveryExecuted (requestId (recoveryRequests s rid))]\<rparr>)
            else Inr s)"
  using assms by (simp add: decryptApproval_def getGuardianCount_def Let_def)

text \<open>
  The boundary cases: with 5 guardians a count of 2 does not execute and 3 does; with 4
  guardians a count of 2 does not execute and 3 does.
\<close>

theorem decryptApproval_majority_witness:
  "decryptApproval honest_check (round_state 5 2 1) 1 (abi_encode_uint32 2) [] =
     Inr (round_state 5 2 1)
   \<and> decryptApproval honest_check (round_state 5 3 1) 1 (abi_encode_uint32 3) [] =
     Inr ((round_state 5 3 1)\<lparr>recoveryRequests :=
            (recoveryRequests (round_state 5 3 1))
              (1 := (recoveryRequests (round_state 5 3 1) 1)\<lparr>executed := True\<rparr>),
            events := events (round_state 5 3 1) @ [RecoveryExecuted 1]\<rparr>)
   \<and> decryptApproval honest_check (round_state 4 2 1) 1 (abi_encode_uint32 2) [] =
     Inr (round_state 4 2 1)
   \<and> decryptApproval honest_check (round_state 4 3 1) 1 (abi_encode_uint32 3) [] =
     Inr ((round_state 4 3 1)\<lparr>recoveryRequests :=
            (recoveryRequests (round_state 4 3 1))
              (1 := (recoveryRequests (round_state 4 3 1) 1)\<lparr>executed := True\<rparr>),
            events := events (round_state 4 3 1) @ [RecoveryExecuted 1]\<rparr>)"
proof -
  have inst: "decryptApproval honest_check (round_state n k 1) 1 (abi_encode_uint32 (of_nat k)) [] =
           (if n div 2 + 1 \<le> unat (of_nat k :: uint32)
            then Inr ((round_state n k 1)\<lparr>recoveryRequests :=
                          (recoveryRequests (round_state n k 1))
                            (1 := (recoveryRequests (round_state n k 1) 1)\<lparr>executed := True\<rparr>),
                        events := events (round_state n k 1) @ [RecoveryExecuted 1]\<rparr>)
            else Inr (round_state n k 1))" for n k
    using decryptApproval_majority [where chk = honest_check and s = "round_state n k 1"
        and rid = 1 and cleartexts = "abi_encode_uint32 (of_nat k)" and pf = "[]"
        and c = "of_nat k"]
    by (simp add: round_state_callback abi_decode_encode)
  show ?thesis
    using inst [of 5 2] inst [of 5 3] inst [of 4 2] inst [of 4 3]
    by simp
qed

text \<open>
  Claim C5 says that once a request is executed every further callback resolving to it
  fails with \<^verbatim>\<open>Already executed\<close>, changes nothing and emits nothing. The callback
  tests the \<open>executed\<close> flag of the slot named by the oracle's identifier, not of the
  request for which the decryption was issued. What the code does when two decryption
  rounds, with the identifiers 0 and 1, were issued for request 1 and the callback for
  1 has executed it: the callback for 0, the second one for request 1, succeeds, sets
  the \<open>executed\<close> flag of slot 0 and emits \<^verbatim>\<open>RecoveryExecuted(0)\<close>.
\<close>

theorem duplicate_callback_is_not_rejected:
  "executed (recoveryRequests duplicate_round_state 1)
   \<and> decryptionRequests duplicate_round_state =
       [(0, [encryptedApprovalCount (recoveryRequests duplicate_round_state 1)]),
        (1, [encryptedApprovalCount (recoveryRequests duplicate_round_state 1)])]
   \<and> events duplicate_round_state = [RecoveryRequested 1 1000, RecoveryExecuted 1]
   \<and> decryptApproval honest_check duplicate_round_state 0 (abi_encode_uint32 2) [] =
       Inr (duplicate_round_state\<lparr>recoveryRequests :=
              (recoveryRequests duplicate_round_state)(0 := zero_request\<lparr>executed := True\<rparr>),
              events := [RecoveryRequested 1 1000, RecoveryExecuted 1, RecoveryExecuted 0]\<rparr>)"
  by (simp add: duplicate_round_state_eq decryptApproval_def Let_def honest_check_def
        abi_decode_encode alice_def no_requests_def zero_request_def)

text \<open>
  Claim C10. A callback that succeeds leaves the guardian registry, the request counter,
  \<^verbatim>\<open>requestToUser\<close> (which it never clears), the log of decryption requests and every
  request's encrypted approval counter as they were, and no slot of
  \<^verbatim>\<open>recoveryRequests\<close> other than the one it was called with changes. Either the
  whole state is unchanged, or the \<open>executed\<close> flag of that one slot is set and
  \<^verbatim>\<open>RecoveryExecuted\<close> is appended to the event log.
\<close>

theorem decryptApproval_frame:
  assumes "decryptApproval chk s rid cleartexts pf = Inr s'"
  shows "userGuardians s' = userGuardians s
       \<and> requestCounter s' = requestCounter s
       \<and> requestToUser s' = requestToUser s
       \<and> decryptionRequests s' = decryptionRequests s
       \<and> (\<forall>r. encryptedApprovalCount (recoveryRequests s' r) =
                encryptedApprovalCount (recoveryRequests s r))
       \<and> (\<forall>r. r \<noteq> rid \<longrightarrow> recoveryRequests s' r = recoveryRequests s r)
       \<and> (s' = s \<or>
            s' = s\<lparr>recoveryRequests :=
                      (recoveryRequests s)(rid := (recoveryRequests s rid)\<lparr>executed := True\<rparr>),
                    events := events s @ [RecoveryExecuted (requestId (recoveryRequests s rid))]\<rparr>)"
  using assms
  by (auto simp: decryptApproval_def Let_def split: if_splits option.splits)

text \<open>
  The instance: the callback that executes request 1 in the round with three guardians
  and two approvals.
\<close>

theorem decryptApproval_frame_witness:
  "decryptApproval honest_check (round_state 3 2 1) 1 (abi_encode_uint32 2) [] =
     Inr ((round_state 3 2 1)\<lparr>recoveryRequests :=
            (recoveryRequests (round_state 3 2 1))
              (1 := (recoveryRequests (round_state 3 2 1) 1)\<lparr>executed := True\<rparr>),
            events := events (round_state 3 2 1) @ [RecoveryExecuted 1]\<rparr>)
   \<and> userGuardians
        ((round_state 3 2 1)\<lparr>recoveryRequests :=
            (recoveryRequests (round_state 3 2 1))
              (1 := (recoveryRequests (round_state 3 2 1) 1)\<lparr>executed := True\<rparr>),
            events := events (round_state 3 2 1) @ [RecoveryExecuted 1]\<rparr>)
       = userGuardians (round_state 3 2 1)
   \<and> requestToUser
        ((round_state 3 2 1)\<lparr>recoveryRequests :=
            (recoveryRequests (round_state 3 2 1))
              (1 := (recoveryRequests (round_state 3 2 1) 1)\<lparr>executed := True\<rparr>),
            events := events (round_state 3 2 1) @ [RecoveryExecuted 1]\<rparr>) 1
       = alice"
proof -
  have ok: "decryptApproval honest_check (round_state 3 2 1) 1 (abi_encode_uint32 2) [] =
     Inr ((round_state 3 2 1)\<lparr>recoveryRequests :=
            (recoveryRequests (round_state 3 2 1))
              (1 := (recoveryRequests (round_state 3 2 1) 1)\<lparr>executed := True\<rparr>),
            events := events (round_state 3 2 1) @ [RecoveryExecuted 1]\<rparr>)"
    using round_state_callback(3) [of 3 2 "[]"]
    by (simp add: decryptApproval_def Let_def round_state_callback(1,2,4,6) abi_decode_encode
          round_state_callback(5) [unfolded getGuardianCount_def])
  show ?thesis
    using decryptApproval_frame [OF ok] ok
    by (simp add: round_state_callback(1))
qed

end
